theory Spec2Isabelle
  imports Main "HOL-Library.Sublist"
begin

section \<open>Data model\<close>

text \<open>
  A calendar date as Python's \<open>datetime.date\<close> holds it: three integers. Which triples
  are dates is decided by \<open>valid_date\<close> below.
\<close>

record date =
  year :: int
  month :: int
  day :: int

text \<open>
  Modelled from the spec: the fields of \<open>ContactModel\<close> (\<open>src/schemas.py\<close> is absent).
  The request body carries the six editable attributes that \<open>create_contact\<close> and
  \<open>update_contact\<close> read from it; the names and the e-mail are text, the birthday is a
  calendar date.
\<close>

record contact_model =
  first_name :: string
  second_name :: string
  email :: string
  phone :: string
  birthday :: date
  description :: string

text \<open>
  Modelled from the spec: the columns of \<open>Contact\<close> (\<open>src/database/models.py\<close> is
  absent). The stored row has the same six attributes, none of them null, its primary
  key \<open>id\<close> (here \<open>contact_id\<close>, since \<open>id\<close> is HOL's identity function) and the
  owner reference \<open>user_id\<close>.
\<close>

record contact = contact_model +
  contact_id :: int
  user_id :: int

text \<open>
  The database session is modelled by the rows of the contacts table in store-native
  order. \<open>db.query(Contact).filter(P).all()\<close> is \<open>filter P db\<close>, and \<open>.first()\<close> is the
  first row of that list, or \<open>None\<close>. Of the \<open>User\<close> argument the repository reads
  \<open>user.id\<close> only, so the functions below take that integer.
\<close>

type_synonym session = "contact list"

definition first :: "'a list \<Rightarrow> 'a option" where
  "first xs = (case xs of [] \<Rightarrow> None | x # _ \<Rightarrow> Some x)"

section \<open>update_contact\<close>

text \<open>
  The assignments of \<open>update_contact\<close>, in the order of the source; the last one is
  \<open>contact.user_id = contact.id\<close>.
\<close>

definition assign_fields :: "contact_model \<Rightarrow> contact \<Rightarrow> contact" where
  "assign_fields body contact =
     (let contact = contact\<lparr>first_name := first_name body\<rparr>;
          contact = contact\<lparr>second_name := second_name body\<rparr>;
          contact = contact\<lparr>email := email body\<rparr>;
          contact = contact\<lparr>phone := phone body\<rparr>;
          contact = contact\<lparr>birthday := birthday body\<rparr>;
          contact = contact\<lparr>description := description body\<rparr>;
          contact = contact\<lparr>user_id := contact_id contact\<rparr>
      in contact)"

text \<open>
  The row object returned by \<open>.first()\<close> is the stored row itself: mutating it and
  committing rewrites the first row of the table that the query selected.
\<close>

fun write_back :: "(contact \<Rightarrow> bool) \<Rightarrow> contact \<Rightarrow> session \<Rightarrow> session" where
  "write_back P new [] = []"
| "write_back P new (c # cs) = (if P c then new # cs else c # write_back P new cs)"

definition update_contact ::
    "int \<Rightarrow> contact_model \<Rightarrow> session \<Rightarrow> int \<Rightarrow> contact option \<times> session" where
  "update_contact cid body db uid =
     (let sel = (\<lambda>c. contact_id c = cid \<and> user_id c = uid) in
      case first (filter sel db) of
        None \<Rightarrow> (None, db)
      | Some contact \<Rightarrow>
          (let contact' = assign_fields body contact
           in (Some contact', write_back sel contact' db)))"

section \<open>The LIKE operator\<close>

text \<open>
  \<open>Contact.first_name.like(p)\<close> is rendered by SQLAlchemy as \<open>first_name LIKE p\<close>, with
  no \<open>ESCAPE\<close> clause, and evaluated by the database. In SQL a \<open>%\<close> of the pattern
  stands for any sequence of characters and a \<open>_\<close> for any single character. Two
  things vary between databases and are parameters here: whether the backslash is an
  escape character when no \<open>ESCAPE\<close> clause is given (it is not in standard SQL and
  SQLite, it is in PostgreSQL and MySQL), and the collation, given as the key under
  which two characters compare equal (the identity for a case-sensitive collation,
  case folding for a case-insensitive one).
\<close>

record sql_dialect =
  backslash_escapes :: bool
  collate :: "char \<Rightarrow> char"

definition backslash :: char where
  "backslash = CHR 0x5C"

text \<open>
  \<open>like_match d p s\<close>: the string \<open>s\<close> matches the pattern \<open>p\<close>. An escaping backslash
  makes the character after it literal; a backslash that ends the pattern stands for
  itself (the patterns built below end in \<open>%\<close>).
\<close>

fun like_match :: "sql_dialect \<Rightarrow> string \<Rightarrow> string \<Rightarrow> bool" where
  "like_match d [] [] = True"
| "like_match d [] (c # cs) = False"
| "like_match d (p # ps) [] =
     (if backslash_escapes d \<and> p = backslash \<and> ps \<noteq> [] then False
      else if p = CHR ''%'' then like_match d ps []
      else False)"
| "like_match d (p # ps) (c # cs) =
     (if backslash_escapes d \<and> p = backslash \<and> ps \<noteq> []
        then collate d (hd ps) = collate d c \<and> like_match d (tl ps) cs
      else if p = CHR ''%''
        then like_match d ps (c # cs) \<or> like_match d (p # ps) cs
      else if p = CHR ''_''
        then like_match d ps cs
      else collate d p = collate d c \<and> like_match d ps cs)"

definition like :: "sql_dialect \<Rightarrow> string \<Rightarrow> string \<Rightarrow> bool" where
  "like d column pattern = like_match d pattern column"

text \<open>A fragment none of whose characters LIKE reads in a special way.\<close>

definition plain :: "string \<Rightarrow> bool" where
  "plain F = list_all (\<lambda>ch. ch \<noteq> CHR ''%'' \<and> ch \<noteq> CHR ''_'' \<and> ch \<noteq> backslash) F"

definition standard_sql :: sql_dialect where
  "standard_sql = \<lparr>backslash_escapes = False, collate = (\<lambda>c. c)\<rparr>"

definition backslash_sql :: sql_dialect where
  "backslash_sql = \<lparr>backslash_escapes = True, collate = (\<lambda>c. c)\<rparr>"

section \<open>get_contact_by_some_info\<close>

text \<open>The loop \<open>for n in xs: response.append(n)\<close>.\<close>

fun append_each :: "'a list \<Rightarrow> 'a list \<Rightarrow> 'a list" where
  "append_each response [] = response"
| "append_each response (n # ns) = append_each (response @ [n]) ns"

text \<open>
  The three queries in the order of the source; each \<open>if info_by_...:\<close> tests that the
  list is not empty. The f-string \<open>f'%{some_info}%'\<close> puts the fragment between two
  \<open>%\<close> as it is.
\<close>

definition get_contact_by_some_info ::
    "sql_dialect \<Rightarrow> string \<Rightarrow> session \<Rightarrow> int \<Rightarrow> contact list" where
  "get_contact_by_some_info d some_info db uid =
     (let response = [];
          pattern = ''%'' @ some_info @ ''%'';
          info_by_first_name =
            filter (\<lambda>c. like d (first_name c) pattern \<and> user_id c = uid) db;
          response = (if info_by_first_name \<noteq> []
                      then append_each response info_by_first_name else response);
          info_by_second_name =
            filter (\<lambda>c. like d (second_name c) pattern \<and> user_id c = uid) db;
          response = (if info_by_second_name \<noteq> []
                      then append_each response info_by_second_name else response);
          info_by_email =
            filter (\<lambda>c. like d (email c) pattern \<and> user_id c = uid) db;
          response = (if info_by_email \<noteq> []
                      then append_each response info_by_email else response)
      in response)"

text \<open>
  The specification's side, in its own words: a field contains the fragment as a
  substring, with the case-sensitivity of the store's collation; and in how many of
  the three searched fields a contact contains it. Neither mentions LIKE.
\<close>

definition contains_fragment :: "sql_dialect \<Rightarrow> string \<Rightarrow> string \<Rightarrow> bool" where
  "contains_fragment d F s = sublist (map (collate d) F) (map (collate d) s)"

definition fields_containing :: "sql_dialect \<Rightarrow> string \<Rightarrow> contact \<Rightarrow> nat" where
  "fields_containing d F c =
     of_bool (contains_fragment d F (first_name c))
     + of_bool (contains_fragment d F (second_name c))
     + of_bool (contains_fragment d F (email c))"

section \<open>Dates and durations\<close>

text \<open>
  Python's proleptic Gregorian calendar, as \<open>datetime\<close> implements it: the leap-year
  rule, the length of a month, and the ordinal of a date (1 for 0001-01-01).
\<close>

definition is_leap :: "int \<Rightarrow> bool" where
  "is_leap y = (y mod 4 = 0 \<and> (y mod 100 \<noteq> 0 \<or> y mod 400 = 0))"

definition days_in_month :: "int \<Rightarrow> int \<Rightarrow> int" where
  "days_in_month y m =
     (if m = 2 then (if is_leap y then 29 else 28)
      else if m = 4 \<or> m = 6 \<or> m = 9 \<or> m = 11 then 30
      else 31)"

definition days_before_year :: "int \<Rightarrow> int" where
  "days_before_year y = (let y = y - 1 in y * 365 + y div 4 - y div 100 + y div 400)"

definition days_before_month :: "int \<Rightarrow> int \<Rightarrow> int" where
  "days_before_month y m = sum_list (map (days_in_month y) [1..m - 1])"

definition toordinal :: "date \<Rightarrow> int" where
  "toordinal d = days_before_year (year d) + days_before_month (year d) (month d) + day d"

definition valid_date :: "date \<Rightarrow> bool" where
  "valid_date d =
     (1 \<le> year d \<and> year d \<le> 9999 \<and> 1 \<le> month d \<and> month d \<le> 12
      \<and> 1 \<le> day d \<and> day d \<le> days_in_month (year d) (month d))"

datatype error = ValueError | OverflowError

text \<open>
  \<open>d.replace(year=y)\<close> builds a new date from \<open>y\<close> and the month and day of \<open>d\<close>; the
  constructor raises \<open>ValueError\<close> when the triple is not a date.
\<close>

definition replace_year :: "date \<Rightarrow> int \<Rightarrow> error + date" where
  "replace_year d y =
     (let d' = d\<lparr>year := y\<rparr> in if valid_date d' then Inr d' else Inl ValueError)"

text \<open>
  A duration of whole days is its number of days: \<open>a - b\<close> on dates is the difference
  of the ordinals, and \<open>timedelta(days)\<close> raises \<open>OverflowError\<close> beyond 999999999 days
  in either direction.
\<close>

definition date_sub :: "date \<Rightarrow> date \<Rightarrow> int" where
  "date_sub a b = toordinal a - toordinal b"

definition timedelta :: "int \<Rightarrow> error + int" where
  "timedelta days =
     (if - 999999999 \<le> days \<and> days \<le> 999999999 then Inr days else Inl OverflowError)"

section \<open>get_birthday_per_week\<close>

text \<open>
  The loop over \<open>all_contacts\<close>. The source reads the clock with \<open>datetime.now()\<close>; here
  the date it reads is the argument \<open>today\<close>. The chained comparison
  \<open>timedelta(0) <= x <= timedelta(days)\<close> evaluates \<open>x\<close> first, and \<open>timedelta(days)\<close>
  only when \<open>timedelta(0) <= x\<close> holds. An exception ends the loop and the call.
\<close>

fun birthday_loop ::
    "int \<Rightarrow> date \<Rightarrow> contact list \<Rightarrow> contact list \<Rightarrow> error + contact list" where
  "birthday_loop days today [] response = Inr response"
| "birthday_loop days today (cont # rest) response =
     (case replace_year (birthday cont) (year today) of
        Inl e \<Rightarrow> Inl e
      | Inr b \<Rightarrow>
          (let x = date_sub b today in
           if 0 \<le> x then
             (case timedelta days of
                Inl e \<Rightarrow> Inl e
              | Inr w \<Rightarrow>
                  if x \<le> w then birthday_loop days today rest (response @ [cont])
                  else birthday_loop days today rest response)
           else birthday_loop days today rest response))"

definition get_birthday_per_week ::
    "int \<Rightarrow> session \<Rightarrow> int \<Rightarrow> date \<Rightarrow> error + contact list" where
  "get_birthday_per_week days db uid today =
     (let response = [];
          all_contacts = filter (\<lambda>c. user_id c = uid) db
      in birthday_loop days today all_contacts response)"

text \<open>
  The birthday of a contact moved to the year of \<open>today\<close>, and its distance from
  \<open>today\<close> in days, for stating the properties.
\<close>

definition this_year :: "date \<Rightarrow> contact \<Rightarrow> date" where
  "this_year today c = (birthday c)\<lparr>year := year today\<rparr>"

definition delta :: "date \<Rightarrow> contact \<Rightarrow> int" where
  "delta today c = toordinal (this_year today c) - toordinal today"

definition leap_day_clash :: "date \<Rightarrow> contact \<Rightarrow> bool" where
  "leap_day_clash today c =
     (month (birthday c) = 2 \<and> day (birthday c) = 29 \<and> \<not> is_leap (year today))"

section \<open>Example data\<close>

text \<open>
  The three contacts of the repository's unit test, owned by user 1, with birthdays
  8, 3 and 1 days after the 20th of December 2023; a fourth contact born on the 2nd of
  January, a fifth born on a 29th of February, one contact of user 2, a contact
  whose birthday was the day before, and a contact with an underscore in its names.
\<close>

definition mk_date :: "int \<Rightarrow> int \<Rightarrow> int \<Rightarrow> date" where
  "mk_date y m d = \<lparr>year = y, month = m, day = d\<rparr>"

definition mk_contact ::
    "int \<Rightarrow> int \<Rightarrow> string \<Rightarrow> string \<Rightarrow> string \<Rightarrow> string \<Rightarrow> date \<Rightarrow> contact" where
  "mk_contact i u fn sn em ph bd =
     \<lparr>first_name = fn, second_name = sn, email = em, phone = ph, birthday = bd,
      description = ''Some info for testing'', contact_id = i, user_id = u\<rparr>"

definition today_ex :: date where
  "today_ex = mk_date 2023 12 20"

definition c_user :: contact where
  "c_user = mk_contact 1 1 ''User'' ''Example'' ''example@gmail.com'' ''0635624678''
              (mk_date 1990 12 28)"

definition c_user1 :: contact where
  "c_user1 = mk_contact 2 1 ''User1'' ''Example1'' ''example1@gmail.com'' ''0985578900''
               (mk_date 1991 12 23)"

definition c_user2 :: contact where
  "c_user2 = mk_contact 3 1 ''User2'' ''Example2'' ''example2@gmail.com'' ''0941251588''
               (mk_date 1992 12 21)"

definition c_jan :: contact where
  "c_jan = mk_contact 4 1 ''Jan'' ''Uary'' ''jan@gmail.com'' ''0500000000''
             (mk_date 1993 1 2)"

definition c_leap :: contact where
  "c_leap = mk_contact 5 1 ''Leap'' ''Day'' ''leap@gmail.com'' ''0500000001''
              (mk_date 2000 2 29)"

definition c_other :: contact where
  "c_other = mk_contact 6 2 ''User'' ''Other'' ''other@gmail.com'' ''0500000002''
               (mk_date 1994 12 22)"

definition c_yest :: contact where
  "c_yest = mk_contact 7 1 ''Yester'' ''Day'' ''yesterday@gmail.com'' ''0500000003''
              (mk_date 1995 12 19)"

definition c_ab :: contact where
  "c_ab = mk_contact 8 1 ''a_b'' ''a_b'' ''acb@x.com'' ''0500000004'' (mk_date 1996 6 1)"

definition contacts :: session where
  "contacts = [c_user, c_user1, c_user2]"

definition body4 :: contact_model where
  "body4 = \<lparr>first_name = ''User4'', second_name = ''Example'', email = ''example@gmail.com'',
            phone = ''0671122456'', birthday = mk_date 1995 8 19,
            description = ''Some info for testing''\<rparr>"

section \<open>Properties of update_contact\<close>

lemmas example_defs =
  mk_date_def mk_contact_def today_ex_def c_user_def c_user1_def c_user2_def c_jan_def
  c_leap_def c_other_def c_yest_def c_ab_def contacts_def body4_def

lemma assign_fields_six:
  "first_name (assign_fields body c) = first_name body"
  "second_name (assign_fields body c) = second_name body"
  "email (assign_fields body c) = email body"
  "phone (assign_fields body c) = phone body"
  "birthday (assign_fields body c) = birthday body"
  "description (assign_fields body c) = description body"
  "contact_id (assign_fields body c) = contact_id c"
  by (simp_all add: assign_fields_def Let_def)

lemma assign_fields_owner: "user_id (assign_fields body c) = contact_id c"
  by (simp add: assign_fields_def Let_def)

lemma first_filter_Some: "first (filter P xs) = Some x \<Longrightarrow> P x \<and> x \<in> set xs"
proof -
  assume "first (filter P xs) = Some x"
  then have "x \<in> set (filter P xs)" by (cases "filter P xs") (simp_all add: first_def)
  then show ?thesis by simp
qed

text \<open>
  What a successful update returns: the six fields of the body, the id unchanged, and
  the contact's own id as its owner reference.
\<close>

lemma update_contact_returns:
  assumes "fst (update_contact cid body db uid) = Some c'"
  shows "first_name c' = first_name body \<and> second_name c' = second_name body
       \<and> email c' = email body \<and> phone c' = phone body \<and> birthday c' = birthday body
       \<and> description c' = description body \<and> contact_id c' = cid \<and> user_id c' = cid"
proof (cases "first (filter (\<lambda>c. contact_id c = cid \<and> user_id c = uid) db)")
  case None
  with assms show ?thesis by (simp add: update_contact_def)
next
  case (Some c)
  from first_filter_Some[OF this] have "contact_id c = cid" by simp
  moreover from assms Some have "c' = assign_fields body c"
    by (simp add: update_contact_def Let_def)
  ultimately show ?thesis by (simp add: assign_fields_six assign_fields_owner)
qed

text \<open>
  Claim C1 (the owner reference survives an update): user 1 owns the contact with id 2
  and updates it. The update succeeds and replaces the six fields, but the returned and
  stored row now has \<open>user_id = 2\<close>: it no longer belongs to user 1, and a second
  update by user 1 does not find it.
\<close>

theorem update_contact_changes_owner:
  "contact_id c_user1 = 2 \<and> user_id c_user1 = 1
   \<and> map_option first_name (fst (update_contact 2 body4 [c_user1] 1)) = Some ''User4''
   \<and> map_option phone (fst (update_contact 2 body4 [c_user1] 1)) = Some ''0671122456''
   \<and> map_option user_id (fst (update_contact 2 body4 [c_user1] 1)) = Some 2
   \<and> map user_id (snd (update_contact 2 body4 [c_user1] 1)) = [2]
   \<and> fst (update_contact 2 body4 (snd (update_contact 2 body4 [c_user1] 1)) 1) = None"
  by (simp add: update_contact_def first_def example_defs assign_fields_def Let_def)

section \<open>Properties of get_contact_by_some_info\<close>

lemma append_each_eq: "append_each response xs = response @ xs"
  by (induction xs arbitrary: response) simp_all

text \<open>The guards on empty lists change nothing: the result is the three query results in a row.\<close>

lemma finder_unfold:
  "get_contact_by_some_info d F db U =
     filter (\<lambda>c. like d (first_name c) (''%'' @ F @ ''%'') \<and> user_id c = U) db
   @ filter (\<lambda>c. like d (second_name c) (''%'' @ F @ ''%'') \<and> user_id c = U) db
   @ filter (\<lambda>c. like d (email c) (''%'' @ F @ ''%'') \<and> user_id c = U) db"
  by (simp add: get_contact_by_some_info_def Let_def append_each_eq)

lemma count_list_filter_distinct:
  "distinct xs \<Longrightarrow> x \<in> set xs \<Longrightarrow> count_list (filter P xs) x = (if P x then 1 else 0)"
  by (induction xs) auto

text \<open>The primary key is unique, so no row occurs twice in the table.\<close>

lemma distinct_ids: "distinct (map contact_id db) \<Longrightarrow> distinct db"
  by (simp add: distinct_map)

lemma like_percent_all: "like_match d ''%%'' s"
  by (induction s) (simp_all add: backslash_def)

lemma finder_owner: "c \<in> set (get_contact_by_some_info d F db U) \<Longrightarrow> user_id c = U \<and> c \<in> set db"
  by (auto simp: finder_unfold)

text \<open>
  For a plain fragment the pattern \<open>%F%\<close> does select by containment: a column matches
  exactly when the fragment occurs in it, both read through the collation.
\<close>

lemma like_match_percent: "like_match d ''%'' s"
  by (induction s) simp_all

lemma like_match_plain_prefix:
  "plain F \<Longrightarrow>
     like_match d (F @ ''%'') s \<longleftrightarrow> prefix (map (collate d) F) (map (collate d) s)"
proof (induction F arbitrary: s)
  case Nil
  then show ?case by (simp add: like_match_percent)
next
  case (Cons p ps)
  then have ps: "plain ps" and p: "p \<noteq> CHR ''%''" "p \<noteq> CHR ''_''" "p \<noteq> backslash"
    by (simp_all add: plain_def)
  show ?case
  proof (cases s)
    case Nil
    with p show ?thesis by simp
  next
    case (Cons c cs)
    with p Cons.IH[OF ps, of cs] show ?thesis by simp
  qed
qed

lemma like_match_leading_percent:
  "like_match d (CHR ''%'' # P) s \<longleftrightarrow> (\<exists>t. suffix t s \<and> like_match d P t)"
proof (induction s)
  case Nil
  then show ?case by (simp add: backslash_def)
next
  case (Cons c cs)
  have "like_match d (CHR ''%'' # P) (c # cs) \<longleftrightarrow>
          like_match d P (c # cs) \<or> like_match d (CHR ''%'' # P) cs"
    by (simp add: backslash_def)
  with Cons show ?case by (auto simp: suffix_Cons)
qed

lemma suffix_map_ex:
  "(\<exists>t. suffix t s \<and> prefix xs (map f t)) \<longleftrightarrow> (\<exists>ys. suffix ys (map f s) \<and> prefix xs ys)"
proof
  assume "\<exists>t. suffix t s \<and> prefix xs (map f t)"
  then obtain t where "suffix t s" "prefix xs (map f t)" by blast
  then have "suffix (map f t) (map f s)" by (simp add: map_mono_suffix)
  with \<open>prefix xs (map f t)\<close> show "\<exists>ys. suffix ys (map f s) \<and> prefix xs ys" by blast
next
  assume "\<exists>ys. suffix ys (map f s) \<and> prefix xs ys"
  then obtain ys zs where "map f s = zs @ ys" "prefix xs ys" by (auto simp: suffix_def)
  then obtain us vs where "s = us @ vs" "map f vs = ys" by (auto simp: map_eq_append_conv)
  with \<open>prefix xs ys\<close> show "\<exists>t. suffix t s \<and> prefix xs (map f t)"
    by (auto simp: suffix_def)
qed

lemma like_plain_fragment:
  assumes "plain F"
  shows "like d s (''%'' @ F @ ''%'') \<longleftrightarrow> sublist (map (collate d) F) (map (collate d) s)"
proof -
  have "like d s (''%'' @ F @ ''%'') \<longleftrightarrow> (\<exists>t. suffix t s \<and> like_match d (F @ ''%'') t)"
    using like_match_leading_percent[of d "F @ ''%''" s] by (simp add: like_def)
  also have "\<dots> \<longleftrightarrow> (\<exists>t. suffix t s \<and> prefix (map (collate d) F) (map (collate d) t))"
    using assms by (simp add: like_match_plain_prefix)
  also have "\<dots> \<longleftrightarrow> sublist (map (collate d) F) (map (collate d) s)"
    by (simp add: suffix_map_ex sublist_altdef')
  finally show ?thesis .
qed

lemma finder_plain_fragment:
  assumes "plain F" "collate d = (\<lambda>c. c)" "c \<in> set (get_contact_by_some_info d F db U)"
  shows "user_id c = U \<and>
         (sublist F (first_name c) \<or> sublist F (second_name c) \<or> sublist F (email c))"
proof -
  have *: "\<And>s. like d s (''%'' @ F @ ''%'') \<longleftrightarrow> sublist F s"
    by (simp only: like_plain_fragment[OF assms(1)] assms(2) list.map_ident)
  from assms(3) show ?thesis unfolding finder_unfold * by auto
qed

text \<open>
  Claim C2 (every returned contact is owned by U and contains the fragment in one of
  the three fields): the owner part holds (\<open>finder_owner\<close>), and so does the substring
  part for plain fragments under a case-sensitive collation (\<open>finder_plain_fragment\<close>);
  for other fragments it does not. With the fragment \<open>_\<close> the finder returns the test
  contact User / Example / example@gmail.com, none of whose three fields contains an
  underscore, in both dialects.
\<close>

theorem finder_returns_contact_without_fragment:
  "c_user \<in> set (get_contact_by_some_info standard_sql ''_'' contacts 1)
   \<and> c_user \<in> set (get_contact_by_some_info backslash_sql ''_'' contacts 1)
   \<and> \<not> sublist ''_'' (first_name c_user)
   \<and> \<not> sublist ''_'' (second_name c_user)
   \<and> \<not> sublist ''_'' (email c_user)"
  by (simp add: finder_unfold like_def example_defs standard_sql_def backslash_sql_def
      backslash_def sublist_code)

text \<open>
  Claim C3 (the fragment is matched literally, no character of it is a wildcard): the
  fragment is pasted into the LIKE pattern as it is, so its \<open>_\<close> and \<open>%\<close> are
  wildcards. The field \<open>User\<close> matches the fragments \<open>s_r\<close> and \<open>U%r\<close>, neither of
  which occurs in it, and the fragment \<open>U%r\<close> finds all three test contacts.
\<close>

theorem like_reads_wildcards:
  "like standard_sql ''User'' (''%'' @ ''s_r'' @ ''%'') \<and> \<not> sublist ''s_r'' ''User''
   \<and> like backslash_sql ''User'' (''%'' @ ''U%r'' @ ''%'') \<and> \<not> sublist ''U%r'' ''User''
   \<and> get_contact_by_some_info standard_sql ''U%r'' contacts 1 = [c_user, c_user1, c_user2]"
  by (simp add: finder_unfold like_def example_defs standard_sql_def backslash_sql_def
      backslash_def sublist_code)

text \<open>
  For a plain fragment an owned contact is returned as many times as it has fields
  that contain the fragment.
\<close>

lemma finder_count_plain:
  assumes "distinct (map contact_id db)" "c \<in> set db" "user_id c = U" "plain F"
  shows "count_list (get_contact_by_some_info d F db U) c = fields_containing d F c"
proof -
  from assms(1) have "distinct db" by (rule distinct_ids)
  moreover have "\<And>s. like d s (''%'' @ F @ ''%'') \<longleftrightarrow> contains_fragment d F s"
    by (simp only: like_plain_fragment[OF assms(4)] contains_fragment_def)
  ultimately show ?thesis using assms(2,3) unfolding finder_unfold fields_containing_def
    by (simp add: count_list_filter_distinct)
qed

text \<open>
  Claim C4 (the result is the matches on the first name, then on the second name, then
  on the e-mail, each in store order, and a contact matching in exactly two of the
  three fields appears exactly twice): the result is always the three query results
  in a row (\<open>finder_unfold\<close>), but the queries do not select by containment. The
  contact a_b / a_b / acb@x.com contains the fragment \<open>a_b\<close> in its two names and not
  in its e-mail, so it matches in exactly two fields; the finder returns it three
  times, since the pattern \<open>%a_b%\<close> also matches \<open>acb@x.com\<close>.
\<close>

theorem finder_counts_wildcard_field:
  "sublist ''a_b'' (first_name c_ab) \<and> sublist ''a_b'' (second_name c_ab)
   \<and> \<not> sublist ''a_b'' (email c_ab)
   \<and> fields_containing standard_sql ''a_b'' c_ab = 2
   \<and> get_contact_by_some_info standard_sql ''a_b'' [c_ab] 1 = [c_ab, c_ab, c_ab]
   \<and> count_list (get_contact_by_some_info standard_sql ''a_b'' [c_ab] 1) c_ab = 3
   \<and> count_list (get_contact_by_some_info backslash_sql ''a_b'' [c_ab] 1) c_ab = 3"
  by (simp add: finder_unfold like_def fields_containing_def contains_fragment_def
      example_defs standard_sql_def backslash_sql_def backslash_def sublist_code)

text \<open>
  Claim C7 (the empty fragment returns every owned contact exactly three times): the
  pattern is \<open>%%\<close>, which every string matches, so each of the three queries returns
  all contacts of the owner.
\<close>

theorem empty_fragment_returns_each_thrice:
  assumes "distinct (map contact_id db)" "c \<in> set db" "user_id c = U"
  shows "get_contact_by_some_info d [] db U =
           filter (\<lambda>c. user_id c = U) db @ filter (\<lambda>c. user_id c = U) db
           @ filter (\<lambda>c. user_id c = U) db
       \<and> count_list (get_contact_by_some_info d [] db U) c = 3"
proof -
  from assms(1) have "distinct db" by (rule distinct_ids)
  then show ?thesis using assms(2,3)
    by (simp add: finder_unfold like_def like_percent_all count_list_filter_distinct)
qed

theorem empty_fragment_returns_each_thrice_witness:
  "distinct (map contact_id (contacts @ [c_other])) \<and> c_user2 \<in> set (contacts @ [c_other])
   \<and> user_id c_user2 = 1
   \<and> get_contact_by_some_info backslash_sql [] (contacts @ [c_other]) 1 =
       contacts @ contacts @ contacts
   \<and> count_list (get_contact_by_some_info backslash_sql [] (contacts @ [c_other]) 1) c_user2 = 3"
proof -
  have h1: "distinct (map contact_id (contacts @ [c_other]))" by (simp add: example_defs)
  have h2: "c_user2 \<in> set (contacts @ [c_other])" by (simp add: example_defs)
  have h3: "user_id c_user2 = 1" by (simp add: example_defs)
  have f: "filter (\<lambda>c. user_id c = 1) (contacts @ [c_other]) = contacts"
    by (simp add: example_defs)
  note t = empty_fragment_returns_each_thrice [OF h1 h2 h3, of backslash_sql]
  have a: "get_contact_by_some_info backslash_sql [] (contacts @ [c_other]) 1 =
             contacts @ contacts @ contacts"
    using t [THEN conjunct1] unfolding f .
  from h1 h2 h3 a t [THEN conjunct2] show ?thesis by blast
qed

section \<open>Properties of the calendar\<close>

lemmas date_defs =
  replace_year_def valid_date_def days_in_month_def is_leap_def date_sub_def toordinal_def
  days_before_year_def days_before_month_def timedelta_def delta_def this_year_def
  leap_day_clash_def

text \<open>Moving a date to another year fails for the 29th of February only.\<close>

lemma valid_replace:
  assumes "valid_date b" "1 \<le> y" "y \<le> 9999"
    and "\<not> (month b = 2 \<and> day b = 29 \<and> \<not> is_leap y)"
  shows "valid_date (b\<lparr>year := y\<rparr>)"
  using assms by (auto simp: valid_date_def days_in_month_def split: if_splits)

lemma replace_year_ok:
  assumes "valid_date b" "valid_date today"
    and "\<not> (month b = 2 \<and> day b = 29 \<and> \<not> is_leap (year today))"
  shows "replace_year b (year today) = Inr (b\<lparr>year := year today\<rparr>)"
  using valid_replace[OF assms(1) _ _ assms(3)] assms(2)
  by (simp add: replace_year_def Let_def valid_date_def)

lemma replace_year_clash:
  assumes "month b = 2" "day b = 29" "\<not> is_leap y"
  shows "replace_year b y = Inl ValueError"
  using assms by (simp add: replace_year_def Let_def valid_date_def days_in_month_def)

lemma replace_year_cases:
  "replace_year b y = Inl ValueError \<or> replace_year b y = Inr (b\<lparr>year := y\<rparr>)"
  by (simp add: replace_year_def Let_def)

lemma days_before_month_bounds:
  assumes "1 \<le> m" "m \<le> 12"
  shows "0 \<le> days_before_month y m \<and> days_before_month y m \<le> 335"
proof -
  from assms have "m = 1 \<or> m = 2 \<or> m = 3 \<or> m = 4 \<or> m = 5 \<or> m = 6 \<or> m = 7 \<or> m = 8
      \<or> m = 9 \<or> m = 10 \<or> m = 11 \<or> m = 12" by arith
  then show ?thesis
    by (elim disjE) (simp_all add: days_before_month_def days_in_month_def upto.simps)
qed

text \<open>Two dates of one year are at most 365 days apart.\<close>

lemma delta_le_365:
  assumes "valid_date (this_year today c)" "valid_date today"
  shows "delta today c \<le> 365"
proof -
  let ?b = "this_year today c"
  have y: "year ?b = year today" by (simp add: this_year_def)
  have d1: "day ?b \<le> 31"
    using assms(1) by (auto simp: valid_date_def days_in_month_def split: if_splits)
  have d2: "1 \<le> day today" using assms(2) by (simp add: valid_date_def)
  have m1: "days_before_month (year today) (month ?b) \<le> 335"
    using days_before_month_bounds[of "month ?b" "year today"] assms(1)
    by (simp add: valid_date_def)
  have m2: "0 \<le> days_before_month (year today) (month today)"
    using days_before_month_bounds[of "month today" "year today"] assms(2)
    by (simp add: valid_date_def)
  show ?thesis using d1 d2 m1 m2 by (simp add: delta_def toordinal_def y)
qed

section \<open>Properties of get_birthday_per_week\<close>

lemma birthday_loop_ok:
  assumes "valid_date today" "- 999999999 \<le> W" "W \<le> 999999999"
    and "\<forall>c\<in>set cs. valid_date (birthday c) \<and> \<not> leap_day_clash today c"
  shows "birthday_loop W today cs r =
           Inr (r @ filter (\<lambda>c. 0 \<le> delta today c \<and> delta today c \<le> W) cs)"
  using assms(4)
proof (induction cs arbitrary: r)
  case Nil
  then show ?case by simp
next
  case (Cons c cs)
  then have "replace_year (birthday c) (year today) = Inr (birthday c\<lparr>year := year today\<rparr>)"
    using replace_year_ok[OF _ assms(1)] by (simp add: leap_day_clash_def)
  then show ?case using Cons assms(2,3)
    by (simp add: Let_def date_sub_def delta_def this_year_def timedelta_def)
qed

lemma birthday_loop_sound:
  "birthday_loop W today cs r0 = Inr r \<Longrightarrow>
     set r \<subseteq> set r0 \<union> {c \<in> set cs. 0 \<le> delta today c \<and> delta today c \<le> W}"
proof (induction cs arbitrary: r0)
  case Nil
  then show ?case by simp
next
  case (Cons c cs)
  show ?case
  proof (cases "replace_year (birthday c) (year today)")
    case (Inl e)
    with Cons.prems show ?thesis by simp
  next
    case (Inr b)
    then have b: "b = this_year today c"
      using replace_year_cases[of "birthday c" "year today"] by (auto simp: this_year_def)
    show ?thesis
    proof (cases "0 \<le> delta today c")
      case False
      with Cons.prems Inr b have "birthday_loop W today cs r0 = Inr r"
        by (simp add: Let_def date_sub_def delta_def)
      from Cons.IH[OF this] show ?thesis by auto
    next
      case True
      show ?thesis
      proof (cases "timedelta W")
        case (Inl e)
        with Cons.prems \<open>replace_year _ _ = Inr b\<close> b True show ?thesis
          by (simp add: Let_def date_sub_def delta_def)
      next
        case (Inr w)
        then have w: "w = W" by (auto simp: timedelta_def split: if_splits)
        show ?thesis
        proof (cases "delta today c \<le> W")
          case True
          with Cons.prems \<open>replace_year _ _ = Inr b\<close> b \<open>0 \<le> delta today c\<close> Inr w
          have "birthday_loop W today cs (r0 @ [c]) = Inr r"
            by (simp add: Let_def date_sub_def delta_def)
          from Cons.IH[OF this] True \<open>0 \<le> delta today c\<close> show ?thesis by auto
        next
          case False
          with Cons.prems \<open>replace_year _ _ = Inr b\<close> b \<open>0 \<le> delta today c\<close> Inr w
          have "birthday_loop W today cs r0 = Inr r"
            by (simp add: Let_def date_sub_def delta_def)
          from Cons.IH[OF this] show ?thesis by auto
        qed
      qed
    qed
  qed
qed

lemma birthday_loop_clash:
  assumes "c \<in> set cs" "leap_day_clash today c"
  shows "\<exists>e. birthday_loop W today cs r = Inl e"
  using assms(1)
proof (induction cs arbitrary: r)
  case Nil
  then show ?case by simp
next
  case (Cons a cs)
  show ?case
  proof (cases "a = c")
    case True
    then have "replace_year (birthday a) (year today) = Inl ValueError"
      using assms(2) by (simp add: leap_day_clash_def replace_year_clash)
    then show ?thesis by simp
  next
    case False
    with Cons have ih: "\<And>r. \<exists>e. birthday_loop W today cs r = Inl e" by simp
    from ih[of r] ih[of "r @ [a]"] show ?thesis
      by (auto simp: Let_def split: sum.splits)
  qed
qed

lemma birthday_loop_in_range:
  assumes "- 999999999 \<le> W" "W \<le> 999999999"
  shows "birthday_loop W today cs r \<noteq> Inl OverflowError"
proof (induction cs arbitrary: r)
  case Nil
  then show ?case by simp
next
  case (Cons a cs)
  have tw: "timedelta W = Inr W" using assms by (simp add: timedelta_def)
  from Cons replace_year_cases[of "birthday a" "year today"] show ?case
    by (auto simp: Let_def tw split: if_splits)
qed

lemma birthday_loop_none:
  assumes "valid_date today" "- 999999999 \<le> W"
    and "\<forall>c\<in>set cs. valid_date (birthday c) \<and> \<not> leap_day_clash today c
            \<and> \<not> (0 \<le> delta today c \<and> delta today c \<le> W)"
  shows "birthday_loop W today cs r = Inr r"
  using assms(3)
proof (induction cs)
  case Nil
  then show ?case by simp
next
  case (Cons c cs)
  then have rep: "replace_year (birthday c) (year today) = Inr (birthday c\<lparr>year := year today\<rparr>)"
    using replace_year_ok[OF _ assms(1)] by (simp add: leap_day_clash_def)
  then have "valid_date (this_year today c)"
    by (auto simp: replace_year_def Let_def this_year_def split: if_splits)
  then have le: "delta today c \<le> 365" using assms(1) by (rule delta_le_365)
  show ?case
  proof (cases "0 \<le> delta today c")
    case False
    with rep Cons show ?thesis by (simp add: Let_def date_sub_def delta_def this_year_def)
  next
    case True
    with Cons.prems have gt: "W < delta today c" by simp
    with le assms(2) have "timedelta W = Inr W" by (simp add: timedelta_def)
    with rep Cons True gt show ?thesis
      by (simp add: Let_def date_sub_def delta_def this_year_def)
  qed
qed

lemma owned_filter_filter:
  "filter P (filter (\<lambda>c. user_id c = U) db) = filter (\<lambda>c. user_id c = U \<and> P c) db"
  by (induction db) auto

text \<open>
  Claim C5 as stated (for every window \<open>W \<ge> 0\<close> the matcher returns exactly the owned
  contacts with \<open>0 \<le> delta \<le> W\<close>) fails on two inputs: with an owned contact born on a
  29th of February and a current year that is not a leap year the call raises
  \<open>ValueError\<close>, and with a window of 1000000000 days and an owned contact whose
  birthday is still to come it raises \<open>OverflowError\<close>.
\<close>

theorem birthday_window_counterexample:
  "(0::int) \<le> 7 \<and> user_id c_leap = 1 \<and> valid_date (birthday c_leap) \<and> valid_date today_ex
   \<and> get_birthday_per_week 7 (contacts @ [c_leap]) 1 today_ex = Inl ValueError
   \<and> get_birthday_per_week 1000000000 contacts 1 today_ex = Inl OverflowError"
  by (simp add: get_birthday_per_week_def example_defs date_defs upto.simps)

text \<open>
  Claim C5, amended: for every owner U, every window \<open>0 \<le> W \<le> 999999999\<close> and every
  date \<open>today\<close>, if no contact of U has a 29th of February as birthday while the year
  of \<open>today\<close> is not a leap year, the matcher returns exactly the contacts of U with
  \<open>0 \<le> delta \<le> W\<close>, where \<open>delta\<close> is the birthday moved to the year of \<open>today\<close>
  minus \<open>today\<close>, in the order of the store.
\<close>

theorem birthday_window_exact:
  assumes "valid_date today" "0 \<le> W" "W \<le> 999999999"
    and "\<forall>c\<in>set db. user_id c = U \<longrightarrow> valid_date (birthday c) \<and> \<not> leap_day_clash today c"
  shows "get_birthday_per_week W db U today =
           Inr (filter (\<lambda>c. user_id c = U \<and> 0 \<le> delta today c \<and> delta today c \<le> W) db)"
proof -
  from assms(4) have "\<forall>c\<in>set (filter (\<lambda>c. user_id c = U) db).
      valid_date (birthday c) \<and> \<not> leap_day_clash today c" by simp
  from birthday_loop_ok[OF assms(1) _ assms(3) this, of "[]"] assms(2) show ?thesis
    by (simp add: get_birthday_per_week_def owned_filter_filter)
qed

theorem birthday_window_exact_witness:
  "valid_date today_ex \<and> (0::int) \<le> 5 \<and> (5::int) \<le> 999999999
   \<and> list_all (\<lambda>c. valid_date (birthday c) \<and> \<not> leap_day_clash today_ex c) contacts
   \<and> map (delta today_ex) contacts = [8, 3, 1]
   \<and> get_birthday_per_week 5 (contacts @ [c_other]) 1 today_ex = Inr [c_user1, c_user2]"
proof -
  have h1: "valid_date today_ex" by (simp add: example_defs date_defs upto.simps)
  have h2: "(0::int) \<le> 5" by simp
  have h3: "(5::int) \<le> 999999999" by simp
  have h4: "\<forall>c\<in>set (contacts @ [c_other]). user_id c = 1 \<longrightarrow>
         valid_date (birthday c) \<and> \<not> leap_day_clash today_ex c"
    by (simp add: example_defs date_defs upto.simps)
  have l: "list_all (\<lambda>c. valid_date (birthday c) \<and> \<not> leap_day_clash today_ex c) contacts"
    by (simp add: example_defs date_defs)
  have d: "map (delta today_ex) contacts = [8, 3, 1]"
    by (simp add: example_defs date_defs upto.simps)
  have f: "filter (\<lambda>c. user_id c = 1 \<and> 0 \<le> delta today_ex c \<and> delta today_ex c \<le> 5)
             (contacts @ [c_other]) = [c_user1, c_user2]"
    by (simp add: example_defs date_defs upto.simps)
  have a: "get_birthday_per_week 5 (contacts @ [c_other]) 1 today_ex = Inr [c_user1, c_user2]"
    using birthday_window_exact [OF h1 h2 h3 h4] unfolding f .
  from h1 h2 h3 l d a show ?thesis by blast
qed


text \<open>
  Claim C6 (a birthday that, moved to this year, lies before today is not in the
  result, whatever the window, also when the window reaches into the next year):
  whenever the call returns a list, a contact with \<open>delta < 0\<close> is not in it. In the
  witness the window of 20 days from the 20th of December reaches the 9th of January;
  the contact born on the 2nd of January and the contact whose birthday was yesterday
  are both left out.
\<close>

theorem passed_birthday_excluded:
  assumes "get_birthday_per_week W db U today = Inr r" "delta today c < 0"
  shows "c \<notin> set r"
proof
  assume "c \<in> set r"
  moreover from assms(1) have "set r \<subseteq> set [] \<union>
      {c \<in> set (filter (\<lambda>c. user_id c = U) db). 0 \<le> delta today c \<and> delta today c \<le> W}"
    unfolding get_birthday_per_week_def Let_def by (rule birthday_loop_sound)
  ultimately have "0 \<le> delta today c" by auto
  with assms(2) show False by simp
qed

theorem passed_birthday_excluded_witness:
  "get_birthday_per_week 20 (contacts @ [c_jan, c_yest, c_other]) 1 today_ex = Inr contacts
   \<and> delta today_ex c_jan = - 352 \<and> delta today_ex c_yest = - 1
   \<and> c_jan \<notin> set contacts \<and> c_yest \<notin> set contacts"
proof -
  have h1: "get_birthday_per_week 20 (contacts @ [c_jan, c_yest, c_other]) 1 today_ex
              = Inr contacts"
    by (simp add: get_birthday_per_week_def example_defs date_defs upto.simps)
  have d1: "delta today_ex c_jan = - 352" by (simp add: example_defs date_defs upto.simps)
  have d2: "delta today_ex c_yest = - 1" by (simp add: example_defs date_defs upto.simps)
  have "delta today_ex c_jan < 0" "delta today_ex c_yest < 0" by (simp_all add: d1 d2)
  from passed_birthday_excluded [OF h1 this(1)] passed_birthday_excluded [OF h1 this(2)] h1 d1 d2
  show ?thesis by blast
qed

text \<open>
  Claim C8 as stated (when no contact matches, both functions return an empty sequence
  and do not raise, the matcher in particular for a window of 0 days) fails on three
  inputs. For the matcher: the only owned contact was born on a 29th of February, the
  current year is not a leap year and the window is 0; and a window of -1000000000
  days with an owned contact whose birthday is still to come. For the finder: no field
  of the three test contacts contains the fragment \<open>x_m\<close>, and the finder returns
  each of them twice.
\<close>

theorem no_match_counterexample:
  "user_id c_leap = 1 \<and> valid_date (birthday c_leap) \<and> valid_date today_ex
   \<and> \<not> (0 \<le> delta today_ex c_leap \<and> delta today_ex c_leap \<le> 0)
   \<and> get_birthday_per_week 0 [c_leap] 1 today_ex = Inl ValueError
   \<and> map (delta today_ex) contacts = [8, 3, 1]
   \<and> get_birthday_per_week (- 1000000000) contacts 1 today_ex = Inl OverflowError
   \<and> list_all (\<lambda>c. \<not> sublist ''x_m'' (first_name c) \<and> \<not> sublist ''x_m'' (second_name c)
                    \<and> \<not> sublist ''x_m'' (email c)) contacts
   \<and> get_contact_by_some_info standard_sql ''x_m'' contacts 1
       = [c_user, c_user1, c_user2, c_user, c_user1, c_user2]"
  by (simp add: get_birthday_per_week_def example_defs date_defs upto.simps
      finder_unfold like_def standard_sql_def backslash_def sublist_code)

text \<open>
  Claim C8, amended: when no contact of the owner contains the fragment in its first
  name, second name or e-mail and the fragment has no \<open>%\<close>, \<open>_\<close> or backslash, the
  finder returns the empty sequence; and when no contact of the owner has
  \<open>0 \<le> delta \<le> W\<close>, the matcher returns the empty sequence without raising for every
  window \<open>W \<ge> -999999999\<close>, in particular \<open>W = 0\<close>, provided no contact of the owner
  has a 29th of February as birthday while the current year is not a leap year.
\<close>

theorem no_match_gives_empty:
  "(plain F
    \<and> (\<forall>c\<in>set db. user_id c = U \<longrightarrow>
          \<not> contains_fragment d F (first_name c) \<and> \<not> contains_fragment d F (second_name c)
          \<and> \<not> contains_fragment d F (email c))
     \<longrightarrow> get_contact_by_some_info d F db U = [])
   \<and> (valid_date today \<and> - 999999999 \<le> W
       \<and> (\<forall>c\<in>set db. user_id c = U \<longrightarrow>
             valid_date (birthday c) \<and> \<not> leap_day_clash today c
             \<and> \<not> (0 \<le> delta today c \<and> delta today c \<le> W))
     \<longrightarrow> get_birthday_per_week W db U today = Inr [])"
proof (intro conjI impI)
  assume a: "plain F
    \<and> (\<forall>c\<in>set db. user_id c = U \<longrightarrow>
          \<not> contains_fragment d F (first_name c) \<and> \<not> contains_fragment d F (second_name c)
          \<and> \<not> contains_fragment d F (email c))"
  then have "\<And>s. like d s (''%'' @ F @ ''%'') \<longleftrightarrow> contains_fragment d F s"
    by (simp only: like_plain_fragment contains_fragment_def)
  with a show "get_contact_by_some_info d F db U = []"
    unfolding finder_unfold by (auto simp: filter_empty_conv)
next
  assume a: "valid_date today \<and> - 999999999 \<le> W
       \<and> (\<forall>c\<in>set db. user_id c = U \<longrightarrow>
             valid_date (birthday c) \<and> \<not> leap_day_clash today c
             \<and> \<not> (0 \<le> delta today c \<and> delta today c \<le> W))"
  then have "\<forall>c\<in>set (filter (\<lambda>c. user_id c = U) db).
      valid_date (birthday c) \<and> \<not> leap_day_clash today c
      \<and> \<not> (0 \<le> delta today c \<and> delta today c \<le> W)" by simp
  from birthday_loop_none[OF _ _ this, of "[]"] a
  show "get_birthday_per_week W db U today = Inr []"
    by (simp add: get_birthday_per_week_def)
qed

theorem no_match_gives_empty_witness:
  "plain ''Other''
   \<and> list_all (\<lambda>c. \<not> contains_fragment standard_sql ''Other'' (first_name c)
        \<and> \<not> contains_fragment standard_sql ''Other'' (second_name c)
        \<and> \<not> contains_fragment standard_sql ''Other'' (email c)) contacts
   \<and> contains_fragment standard_sql ''Other'' (second_name c_other)
   \<and> get_contact_by_some_info standard_sql ''Other'' (contacts @ [c_other]) 1 = []
   \<and> valid_date today_ex \<and> - 999999999 \<le> (0::int)
   \<and> list_all (\<lambda>c. valid_date (birthday c) \<and> \<not> leap_day_clash today_ex c) contacts
   \<and> map (delta today_ex) contacts = [8, 3, 1]
   \<and> get_birthday_per_week 0 (contacts @ [c_other]) 1 today_ex = Inr []"
proof -
  have h1: "plain ''Other''
    \<and> (\<forall>c\<in>set (contacts @ [c_other]). user_id c = 1 \<longrightarrow>
        \<not> contains_fragment standard_sql ''Other'' (first_name c)
        \<and> \<not> contains_fragment standard_sql ''Other'' (second_name c)
        \<and> \<not> contains_fragment standard_sql ''Other'' (email c))"
    by (simp add: plain_def contains_fragment_def example_defs standard_sql_def backslash_def
        sublist_code)
  have h2: "valid_date today_ex \<and> - 999999999 \<le> (0::int)
   \<and> (\<forall>c\<in>set (contacts @ [c_other]). user_id c = 1 \<longrightarrow>
             valid_date (birthday c) \<and> \<not> leap_day_clash today_ex c
             \<and> \<not> (0 \<le> delta today_ex c \<and> delta today_ex c \<le> 0))"
    by (simp add: example_defs date_defs upto.simps)
  have l1: "list_all (\<lambda>c. \<not> contains_fragment standard_sql ''Other'' (first_name c)
        \<and> \<not> contains_fragment standard_sql ''Other'' (second_name c)
        \<and> \<not> contains_fragment standard_sql ''Other'' (email c)) contacts"
    by (simp add: contains_fragment_def example_defs standard_sql_def sublist_code)
  have l2: "contains_fragment standard_sql ''Other'' (second_name c_other)"
    by (simp add: contains_fragment_def example_defs standard_sql_def sublist_code)
  have l3: "list_all (\<lambda>c. valid_date (birthday c) \<and> \<not> leap_day_clash today_ex c) contacts"
    by (simp add: example_defs date_defs)
  have d: "map (delta today_ex) contacts = [8, 3, 1]"
    by (simp add: example_defs date_defs upto.simps)
  note t = no_match_gives_empty [of "''Other''" "contacts @ [c_other]" 1 standard_sql today_ex 0]
  from t [THEN conjunct1, THEN mp, OF h1] t [THEN conjunct2, THEN mp, OF h2] h1 h2 l1 l2 l3 d
  show ?thesis by blast
qed

text \<open>
  Claim C9 (an owned contact born on a 29th of February makes the call raise when the
  current year is not a leap year): the call ends in an error, and for a window
  within the range of \<open>timedelta\<close> that error is the \<open>ValueError\<close> of the year
  substitution.
\<close>

theorem leap_day_contact_raises:
  assumes "c \<in> set db" "user_id c = U"
    and "month (birthday c) = 2" "day (birthday c) = 29" "\<not> is_leap (year today)"
  shows "(\<exists>e. get_birthday_per_week W db U today = Inl e)
       \<and> (- 999999999 \<le> W \<and> W \<le> 999999999
            \<longrightarrow> get_birthday_per_week W db U today = Inl ValueError)"
proof -
  from assms have "c \<in> set (filter (\<lambda>c. user_id c = U) db)" "leap_day_clash today c"
    by (simp_all add: leap_day_clash_def)
  then obtain e where e: "birthday_loop W today (filter (\<lambda>c. user_id c = U) db) [] = Inl e"
    using birthday_loop_clash by blast
  have "e = ValueError" if "- 999999999 \<le> W" "W \<le> 999999999"
    using birthday_loop_in_range[OF that, of today "filter (\<lambda>c. user_id c = U) db" "[]"] e
    by (cases e) simp_all
  with e show ?thesis by (simp add: get_birthday_per_week_def)
qed

theorem leap_day_contact_raises_witness:
  "c_leap \<in> set (contacts @ [c_leap]) \<and> user_id c_leap = 1
   \<and> month (birthday c_leap) = 2 \<and> day (birthday c_leap) = 29 \<and> \<not> is_leap (year today_ex)
   \<and> - 999999999 \<le> (7::int) \<and> (7::int) \<le> 999999999
   \<and> get_birthday_per_week 7 (contacts @ [c_leap]) 1 today_ex = Inl ValueError"
proof -
  have h1: "c_leap \<in> set (contacts @ [c_leap])" by simp
  have h2: "user_id c_leap = 1" by (simp add: example_defs)
  have h3: "month (birthday c_leap) = 2" by (simp add: example_defs)
  have h4: "day (birthday c_leap) = 29" by (simp add: example_defs)
  have h5: "\<not> is_leap (year today_ex)" by (simp add: example_defs is_leap_def)
  have h6: "- 999999999 \<le> (7::int) \<and> (7::int) \<le> 999999999" by simp
  from leap_day_contact_raises [OF h1 h2 h3 h4 h5, of 7, THEN conjunct2, THEN mp, OF h6]
    h1 h2 h3 h4 h5 h6
  show ?thesis by blast
qed

text \<open>
  Claim C10 as stated (every negative window gives the empty sequence without an
  error) fails on two inputs: a window of -1 with an owned contact born on a 29th of
  February in a year that is not a leap year, and a window of -1000000001 days with an
  owned contact whose birthday is still to come.
\<close>

theorem negative_window_counterexample:
  "(- 1::int) < 0 \<and> user_id c_leap = 1 \<and> valid_date (birthday c_leap) \<and> valid_date today_ex
   \<and> get_birthday_per_week (- 1) [c_leap] 1 today_ex = Inl ValueError
   \<and> (- 1000000001::int) < 0
   \<and> get_birthday_per_week (- 1000000001) contacts 1 today_ex = Inl OverflowError"
  by (simp add: get_birthday_per_week_def example_defs date_defs upto.simps)

text \<open>
  Claim C10, amended: for every window \<open>-999999999 \<le> W < 0\<close> and every owner none of
  whose contacts has a 29th of February as birthday while the current year is not a
  leap year, the matcher returns the empty sequence without raising.
\<close>

theorem negative_window_empty:
  assumes "valid_date today" "W < 0" "- 999999999 \<le> W"
    and "\<forall>c\<in>set db. user_id c = U \<longrightarrow> valid_date (birthday c) \<and> \<not> leap_day_clash today c"
  shows "get_birthday_per_week W db U today = Inr []"
proof -
  from assms(2,4) have "\<forall>c\<in>set (filter (\<lambda>c. user_id c = U) db).
      valid_date (birthday c) \<and> \<not> leap_day_clash today c
      \<and> \<not> (0 \<le> delta today c \<and> delta today c \<le> W)" by auto
  from birthday_loop_none[OF assms(1,3) this, of "[]"] show ?thesis
    by (simp add: get_birthday_per_week_def)
qed

theorem negative_window_empty_witness:
  "valid_date today_ex \<and> (- 3::int) < 0 \<and> - 999999999 \<le> (- 3::int)
   \<and> list_all (\<lambda>c. valid_date (birthday c) \<and> \<not> leap_day_clash today_ex c)
        (contacts @ [c_jan])
   \<and> get_birthday_per_week (- 3) (contacts @ [c_jan, c_other]) 1 today_ex = Inr []"
proof -
  have h1: "valid_date today_ex" by (simp add: example_defs date_defs upto.simps)
  have h2: "(- 3::int) < 0" by simp
  have h3: "- 999999999 \<le> (- 3::int)" by simp
  have h4: "\<forall>c\<in>set (contacts @ [c_jan, c_other]). user_id c = 1 \<longrightarrow>
         valid_date (birthday c) \<and> \<not> leap_day_clash today_ex c"
    by (simp add: example_defs date_defs upto.simps)
  have l: "list_all (\<lambda>c. valid_date (birthday c) \<and> \<not> leap_day_clash today_ex c)
             (contacts @ [c_jan])"
    by (simp add: example_defs date_defs)
  from negative_window_empty [OF h1 h2 h3 h4] h1 h2 h3 l show ?thesis by blast
qed

end
